theory Spec2Isabelle
  imports Main "HOL-Library.Sublist"
begin

section \<open>Python string operations used by the renderer\<close>

text \<open>
  Text is a list of characters. A character is a code point below 256, so \<open>isspace\<close> and
  \<open>lower\<close> are Python's \<open>str.isspace\<close> and \<open>str.lower\<close> on that range.
\<close>

definition newline :: char where
  "newline = CHR 0x0A"

definition backslash :: char where
  "backslash = CHR 0x5C"

definition isspace :: "char \<Rightarrow> bool" where
  "isspace c = (c \<in> set [CHR 0x09, CHR 0x0A, CHR 0x0B, CHR 0x0C, CHR 0x0D, CHR 0x1C,
     CHR 0x1D, CHR 0x1E, CHR 0x1F, CHR 0x20, CHR 0x85, CHR 0xA0])"

definition upper_chars :: string where
  "upper_chars = ''ABCDEFGHIJKLMNOPQRSTUVWXYZ'' @ [CHR 0xC0, CHR 0xC1, CHR 0xC2, CHR 0xC3,
     CHR 0xC4, CHR 0xC5, CHR 0xC6, CHR 0xC7, CHR 0xC8, CHR 0xC9, CHR 0xCA, CHR 0xCB, CHR 0xCC,
     CHR 0xCD, CHR 0xCE, CHR 0xCF, CHR 0xD0, CHR 0xD1, CHR 0xD2, CHR 0xD3, CHR 0xD4, CHR 0xD5,
     CHR 0xD6, CHR 0xD8, CHR 0xD9, CHR 0xDA, CHR 0xDB, CHR 0xDC, CHR 0xDD, CHR 0xDE]"

definition lower_chars :: string where
  "lower_chars = ''abcdefghijklmnopqrstuvwxyz'' @ [CHR 0xE0, CHR 0xE1, CHR 0xE2, CHR 0xE3,
     CHR 0xE4, CHR 0xE5, CHR 0xE6, CHR 0xE7, CHR 0xE8, CHR 0xE9, CHR 0xEA, CHR 0xEB, CHR 0xEC,
     CHR 0xED, CHR 0xEE, CHR 0xEF, CHR 0xF0, CHR 0xF1, CHR 0xF2, CHR 0xF3, CHR 0xF4, CHR 0xF5,
     CHR 0xF6, CHR 0xF8, CHR 0xF9, CHR 0xFA, CHR 0xFB, CHR 0xFC, CHR 0xFD, CHR 0xFE]"

definition lower_char :: "char \<Rightarrow> char" where
  "lower_char c = (case map_of (zip upper_chars lower_chars) c of Some d \<Rightarrow> d | None \<Rightarrow> c)"

text \<open>\<^verbatim>\<open>s.lower()\<close>\<close>

definition lower :: "string \<Rightarrow> string" where
  "lower s = map lower_char s"

text \<open>\<^verbatim>\<open>s.strip()\<close>: whitespace removed at both ends.\<close>

definition strip :: "string \<Rightarrow> string" where
  "strip s = rev (dropWhile isspace (rev (dropWhile isspace s)))"

text \<open>\<^verbatim>\<open>s.startswith(p)\<close>\<close>

fun startswith :: "string \<Rightarrow> string \<Rightarrow> bool" where
  "startswith s [] = True"
| "startswith [] (p # ps) = False"
| "startswith (c # cs) (p # ps) = (c = p \<and> startswith cs ps)"

text \<open>\<^verbatim>\<open>needle in hay\<close> on two strings.\<close>

fun str_in :: "string \<Rightarrow> string \<Rightarrow> bool" where
  "str_in needle [] = (needle = [])"
| "str_in needle (c # cs) = (startswith (c # cs) needle \<or> str_in needle cs)"

text \<open>\<^verbatim>\<open>s.split('\n')\<close>: the result is never empty; the empty text gives one empty line.\<close>

fun split_lines :: "string \<Rightarrow> string list" where
  "split_lines [] = [[]]"
| "split_lines (c # cs) =
     (if c = newline then [] # split_lines cs
      else (case split_lines cs of
              l # ls \<Rightarrow> (c # l) # ls
            | [] \<Rightarrow> [[c]]))"

text \<open>\<^verbatim>\<open>'\n'.join(ls)\<close>\<close>

fun join_lines :: "string list \<Rightarrow> string" where
  "join_lines [] = []"
| "join_lines [l] = l"
| "join_lines (l # m # ls) = l @ newline # join_lines (m # ls)"

text \<open>\<^verbatim>\<open>xs[-n:]\<close> for positive \<open>n\<close>: the last \<open>n\<close> elements, all of them when there are fewer.\<close>

definition last_n :: "nat \<Rightarrow> 'a list \<Rightarrow> 'a list" where
  "last_n n xs = drop (length xs - n) xs"

section \<open>Document normalisation (lines 41 to 56)\<close>

definition documentclass_marker :: string where
  "documentclass_marker = backslash # ''documentclass''"

definition template_head :: string where
  "template_head =
     backslash # ''documentclass[border=2pt]{standalone}\<newline>'' @
     backslash # ''usepackage{tikz}\<newline>'' @
     backslash # ''usepackage{pgfplots}\<newline>'' @
     backslash # ''usepackage{amsmath}\<newline>'' @
     backslash # ''usepackage{amssymb}\<newline>'' @
     backslash # ''usepackage{xcolor}\<newline>'' @
     backslash # ''usetikzlibrary{shapes,arrows,positioning,calc,decorations.pathreplacing,patterns,fit,backgrounds,mindmap,trees,arrows.meta,angles,quotes}\<newline>'' @
     backslash # ''pgfplotsset{compat=1.18}\<newline>'' @
     ''\<newline>'' @
     backslash # ''begin{document}\<newline>''"

definition template_tail :: string where
  "template_tail = ''\<newline>'' @ backslash # ''end{document}\<newline>''"

definition latex_content :: "string \<Rightarrow> string" where
  "latex_content tikz_code =
     (if str_in documentclass_marker tikz_code then tikz_code
      else template_head @ tikz_code @ template_tail)"

section \<open>The scan of the compiler log (lines 72 to 114)\<close>

record scan_state =
  error_section :: bool
  error_lines :: "string list"
  context_lines :: "string list"

definition scan_init :: scan_state where
  "scan_init = \<lparr>error_section = False, error_lines = [], context_lines = []\<rparr>"

text \<open>How one pass through the loop body ends: at its end or at \<^verbatim>\<open>continue\<close>, or at \<^verbatim>\<open>break\<close>.\<close>

datatype 'a loop_ctl = Continue 'a | Break 'a

fun ctl_state :: "'a loop_ctl \<Rightarrow> 'a" where
  "ctl_state (Continue s) = s"
| "ctl_state (Break s) = s"

definition trigger_keywords :: "string list" where
  "trigger_keywords = [''! '', ''error:'', ''undefined'', ''missing'']"

text \<open>Line 83: \<^verbatim>\<open>any(keyword in line.lower() for keyword in [...])\<close>\<close>

definition triggers :: "string \<Rightarrow> bool" where
  "triggers line = list_ex (\<lambda>keyword. str_in keyword (lower line)) trigger_keywords"

text \<open>
  Stated from the words of the specification, to be compared with line 83: a character
  of a line matches a character of a keyword without regard to case when the two are
  equal or the first is the capital of the second. The keywords hold no letters outside
  \<^verbatim>\<open>a\<close> to \<^verbatim>\<open>z\<close>. A line contains a keyword case-insensitively when some contiguous piece
  of it matches the keyword character by character.
\<close>

definition caseless_match :: "char \<Rightarrow> char \<Rightarrow> bool" where
  "caseless_match c k =
     (c = k \<or> (c, k) \<in> set (zip ''ABCDEFGHIJKLMNOPQRSTUVWXYZ'' ''abcdefghijklmnopqrstuvwxyz''))"

definition contains_caseless :: "string \<Rightarrow> string \<Rightarrow> bool" where
  "contains_caseless keyword line =
     (\<exists>before piece after. line = before @ piece @ after \<and> list_all2 caseless_match piece keyword)"

text \<open>
  Lines 87 to 89: \<^verbatim>\<open>for j in range(max(0, i-2), i)\<close>. On naturals \<open>i - 2\<close> is already 0
  when \<open>i < 2\<close>. Every \<open>j\<close> is below \<open>i\<close>, the index of the current line, so the read
  is in range.
\<close>

definition backfill :: "string list \<Rightarrow> nat \<Rightarrow> string list \<Rightarrow> string list" where
  "backfill lines i ctx =
     fold (\<lambda>j ctx. if strip (lines ! j) \<noteq> [] \<and> strip (lines ! j) \<notin> set ctx
                    then ctx @ [strip (lines ! j)] else ctx)
          [max 0 (i - 2) ..< i] ctx"

text \<open>Lines 80 to 106: the loop body for the line at index \<open>i\<close>.\<close>

definition loop_body :: "string list \<Rightarrow> nat \<Rightarrow> string \<Rightarrow> scan_state \<Rightarrow> scan_state loop_ctl" where
  "loop_body lines i line st =
     (let line_clean = strip line in
      if triggers line then
        Continue (st\<lparr>error_section := True,
                     error_lines := error_lines st @ [line_clean],
                     context_lines := backfill lines i (context_lines st)\<rparr>)
      else if error_section st then
        (if line_clean \<noteq> [] then
           (if startswith line ''l.'' \<or> str_in ''line'' (lower line) then
              Continue (st\<lparr>error_lines := error_lines st @ [line_clean]\<rparr>)
            else if list_ex (\<lambda>char. char \<in> set line) [CHR ''^'', CHR ''?''] then
              Continue (st\<lparr>error_lines := error_lines st @ [line_clean]\<rparr>)
            else if startswith line_clean [backslash] \<or> str_in [backslash] line_clean then
              Continue (st\<lparr>error_lines := error_lines st @ [line_clean]\<rparr>)
            else if length (error_lines st) < 10 then
              Continue (st\<lparr>error_lines := error_lines st @ [line_clean]\<rparr>)
            else Continue st)
         else
           (if length (error_lines st) > 0 then Break st else Continue st))
      else Continue st)"

text \<open>
  Line 79: \<^verbatim>\<open>for i, line in enumerate(lines)\<close>, over the pairs still to visit. The
  result says whether the loop ran to its end or stopped at a \<^verbatim>\<open>break\<close>.
\<close>

fun scan_from :: "string list \<Rightarrow> (nat \<times> string) list \<Rightarrow> scan_state \<Rightarrow> scan_state loop_ctl" where
  "scan_from lines [] st = Continue st"
| "scan_from lines ((i, line) # rest) st =
     (case loop_body lines i line st of
        Break st' \<Rightarrow> Break st'
      | Continue st' \<Rightarrow> scan_from lines rest st')"

definition scan_log :: "string list \<Rightarrow> scan_state" where
  "scan_log lines = ctl_state (scan_from lines (enumerate 0 lines) scan_init)"

definition separator :: string where
  "separator = ''--- Error Details ---''"

text \<open>Lines 108 to 114: the lines of the report, before they are joined.\<close>

definition report_lines :: "string list \<Rightarrow> string list" where
  "report_lines lines =
     (let st = scan_log lines in
      if context_lines st \<noteq> [] \<or> error_lines st \<noteq> [] then
        (let all_lines = context_lines st @ [separator] @ error_lines st in
         take 20 all_lines)
      else
        (let last_lines = filter (\<lambda>line. strip line \<noteq> []) (last_n 50 lines) in
         last_n 15 last_lines))"

text \<open>The value of \<^verbatim>\<open>error_details\<close> after line 114, from the text of the log.\<close>

definition log_error_details :: "string \<Rightarrow> string" where
  "log_error_details log_content = join_lines (report_lines (split_lines log_content))"

section \<open>The pipeline (lines 27 to 144)\<close>

text \<open>
  What lies outside the program: what the two tools do when \<^verbatim>\<open>subprocess.run\<close> starts
  them. Creating the workspace and reading and writing the files in it are taken to
  succeed.
\<close>

text \<open>
  Lines 29 to 36. A probe ends in one of three ways: the tool answers with status zero;
  the run raises \<^verbatim>\<open>CalledProcessError\<close> or \<^verbatim>\<open>FileNotFoundError\<close>, which the handler
  catches; or starting the tool raises another \<^verbatim>\<open>OSError\<close> (a \<^verbatim>\<open>PermissionError\<close>, say),
  which no handler catches. \<open>ProbeRaises\<close> carries the text of that error.
\<close>

datatype probe_result = Found | NotFound | ProbeRaises string

text \<open>
  Lines 61 to 66: the compiler is run with \<^verbatim>\<open>check=True, capture_output=True, text=True\<close>.
  \<^item> \<open>launch_error\<close>: the text of the \<^verbatim>\<open>OSError\<close> when the process cannot be started;
  \<^item> \<open>decode_error\<close>: the text of the \<^verbatim>\<open>UnicodeDecodeError\<close> when the captured output
    is not valid text; \<^verbatim>\<open>subprocess.run\<close> decodes the output before it looks at the exit
    status, so this error is raised at every exit status;
  \<^item> \<open>returncode\<close> and \<open>stderr\<close>: the exit status and the decoded standard error;
  \<^item> \<open>log_file\<close>: the text of \<^verbatim>\<open>diagram.log\<close> as \<^verbatim>\<open>read_text\<close> gives it, if the file
    exists; \<open>pdf_exists\<close>: whether \<^verbatim>\<open>diagram.pdf\<close> exists.
\<close>

record compile_result =
  launch_error :: "string option"
  decode_error :: "string option"
  returncode :: int
  stderr :: string
  log_file :: "string option"
  pdf_exists :: bool

text \<open>
  Lines 129 to 135: the converter is run with \<^verbatim>\<open>check=True, capture_output=True\<close>; its
  output is not decoded. \<open>convert_launch_error\<close> is the text of the \<^verbatim>\<open>OSError\<close> when the
  process cannot be started, which no handler catches; \<open>convert_error_text\<close> is \<^verbatim>\<open>str(e)\<close>
  of the \<^verbatim>\<open>CalledProcessError\<close>.
\<close>

record convert_result =
  convert_launch_error :: "string option"
  convert_returncode :: int
  convert_error_text :: string
  png_file :: "string option"

record env =
  pdflatex_probe :: probe_result
  convert_probe :: probe_result
  run_pdflatex :: "string \<Rightarrow> compile_result"
  run_convert :: "string \<Rightarrow> convert_result"
  b64encode :: "string \<Rightarrow> string"

text \<open>The exceptions that leave \<^verbatim>\<open>compile_tikz_to_image\<close>, each with its text.\<close>

datatype exn = RuntimeError string | OSError string | UnicodeDecodeError string

text \<open>\<^verbatim>\<open>str(e)\<close>\<close>

fun str_exn :: "exn \<Rightarrow> string" where
  "str_exn (RuntimeError msg) = msg"
| "str_exn (OSError msg) = msg"
| "str_exn (UnicodeDecodeError msg) = msg"

datatype event =
    ProbePdflatex
  | ProbeConvert
  | CreateWorkspace
  | WriteTex string
  | RunPdflatex
  | RunConvert
  | RemoveWorkspace

text \<open>Lines 68 to 119: the body of the handler of a failed compiler run.\<close>

definition error_details :: "compile_result \<Rightarrow> string" where
  "error_details e =
     (case log_file e of
        Some log_content \<Rightarrow>
          (let details = log_error_details log_content in
           if details = [] then
             (if stderr e \<noteq> [] then stderr e
              else ''LaTeX compilation failed with unknown error'')
           else details)
      | None \<Rightarrow>
          (if stderr e \<noteq> [] then stderr e
           else ''LaTeX compilation failed - no log file generated''))"

definition compilation_failed :: "string \<Rightarrow> exn" where
  "compilation_failed details =
     RuntimeError (''LaTeX compilation failed:\<newline>\<newline>'' @ details)"

text \<open>
  The result is the trace of what was done to the outside and either the exception
  raised or the encoded image. The workspace is removed when the \<^verbatim>\<open>with\<close> block is left.
\<close>

definition compile_tikz_to_image :: "env \<Rightarrow> string \<Rightarrow> event list \<times> (exn + string)" where
  "compile_tikz_to_image w tikz_code =
     (case pdflatex_probe w of
        NotFound \<Rightarrow>
          ([ProbePdflatex],
           Inl (RuntimeError ''pdflatex not found. Please install TeX Live or MiKTeX.''))
      | ProbeRaises msg \<Rightarrow> ([ProbePdflatex], Inl (OSError msg))
      | Found \<Rightarrow>
     (case convert_probe w of
        NotFound \<Rightarrow>
          ([ProbePdflatex, ProbeConvert],
           Inl (RuntimeError ''ImageMagick convert not found. Please install ImageMagick.''))
      | ProbeRaises msg \<Rightarrow> ([ProbePdflatex, ProbeConvert], Inl (OSError msg))
      | Found \<Rightarrow>
        (let doc = latex_content tikz_code;
             started = [ProbePdflatex, ProbeConvert, CreateWorkspace, WriteTex doc, RunPdflatex];
             e = run_pdflatex w doc
         in
         case launch_error e of
           Some msg \<Rightarrow> (started @ [RemoveWorkspace], Inl (OSError msg))
         | None \<Rightarrow>
        (case decode_error e of
           Some msg \<Rightarrow> (started @ [RemoveWorkspace], Inl (UnicodeDecodeError msg))
         | None \<Rightarrow>
         if returncode e \<noteq> 0 then
           (started @ [RemoveWorkspace], Inl (compilation_failed (error_details e)))
         else if \<not> pdf_exists e then
           (started @ [RemoveWorkspace], Inl (RuntimeError ''PDF file was not generated''))
         else
           (let c = run_convert w doc in
            case convert_launch_error c of
              Some msg \<Rightarrow> (started @ [RunConvert, RemoveWorkspace], Inl (OSError msg))
            | None \<Rightarrow>
            if convert_returncode c \<noteq> 0 then
              (started @ [RunConvert, RemoveWorkspace],
               Inl (RuntimeError (''Image conversion failed: '' @ convert_error_text c)))
            else
              (case png_file c of
                 None \<Rightarrow>
                   (started @ [RunConvert, RemoveWorkspace],
                    Inl (RuntimeError ''PNG file was not generated''))
               | Some png \<Rightarrow>
                   (started @ [RunConvert, RemoveWorkspace], Inr (b64encode w png))))))))"

section \<open>The tool handler (lines 168 to 217)\<close>

text \<open>The JSON values an argument can hold, without floating-point numbers.\<close>

datatype py_value =
    PyNone
  | PyBool bool
  | PyInt int
  | PyStr string
  | PyList "py_value list"
  | PyDict "(string \<times> py_value) list"

fun truthy :: "py_value \<Rightarrow> bool" where
  "truthy PyNone = False"
| "truthy (PyBool b) = b"
| "truthy (PyInt n) = (n \<noteq> 0)"
| "truthy (PyStr s) = (s \<noteq> [])"
| "truthy (PyList xs) = (xs \<noteq> [])"
| "truthy (PyDict kvs) = (kvs \<noteq> [])"

fun isinstance_str :: "py_value \<Rightarrow> bool" where
  "isinstance_str (PyStr s) = True"
| "isinstance_str v = False"

datatype content = TextContent string | ImageContent string string

definition validation_error :: "content list" where
  "validation_error = [TextContent ''Error: Valid TikZ code is required'']"

text \<open>
  \<^verbatim>\<open>arguments.get("tikz_code")\<close> is \<open>PyNone\<close> for a missing key. After the guard of line
  179 the value is a string; the last case of the match is not reached.
\<close>

definition handle_call_tool ::
  "env \<Rightarrow> string \<Rightarrow> (string \<rightharpoonup> py_value) option \<Rightarrow> event list \<times> content list" where
  "handle_call_tool w name arguments0 =
     (let arguments = (case arguments0 of None \<Rightarrow> Map.empty | Some a \<Rightarrow> a) in
      if name = ''render_tikz'' then
        (let tikz_code = (case arguments ''tikz_code'' of None \<Rightarrow> PyNone | Some v \<Rightarrow> v) in
         if \<not> truthy tikz_code \<or> \<not> isinstance_str tikz_code then ([], validation_error)
         else
           (case tikz_code of
              PyStr s \<Rightarrow>
                (case compile_tikz_to_image w s of
                   (trace, Inr image_base64) \<Rightarrow>
                     (trace, [TextContent ''TikZ diagram rendered successfully'',
                              ImageContent image_base64 ''image/png''])
                 | (trace, Inl e) \<Rightarrow>
                     (trace, [TextContent (''Compilation Error: '' @ str_exn e)]))
            | _ \<Rightarrow> ([], validation_error)))
      else ([], [TextContent (''Unknown tool: '' @ name @ ''. Available tools: render_tikz'')]))"

section \<open>Sample environments\<close>

definition sample_env :: "compile_result \<Rightarrow> convert_result \<Rightarrow> env" where
  "sample_env e c =
     \<lparr>pdflatex_probe = Found, convert_probe = Found,
      run_pdflatex = (\<lambda>doc. e), run_convert = (\<lambda>doc. c),
      b64encode = (\<lambda>png. png)\<rparr>"

definition sample_convert :: convert_result where
  "sample_convert = \<lparr>convert_launch_error = None, convert_returncode = 0, convert_error_text = [], png_file = Some ''PNG''\<rparr>"

text \<open>The compiler reports an error, exits with status 1 and still writes a PDF file.\<close>

definition failed_run_with_pdf :: compile_result where
  "failed_run_with_pdf =
     \<lparr>launch_error = None, decode_error = None, returncode = 1, stderr = [],
      log_file = Some (''! Undefined control sequence.\<newline>l.3 '' @ backslash # ''foo''),
      pdf_exists = True\<rparr>"

text \<open>The compiler exits with status 0 and writes no PDF file.\<close>

definition clean_run_without_pdf :: compile_result where
  "clean_run_without_pdf =
     \<lparr>launch_error = None, decode_error = None, returncode = 0, stderr = [],
      log_file = Some ''No pages of output.'', pdf_exists = False\<rparr>"

text \<open>The compiler exits with status 1 and writes no log file.\<close>

definition failed_run_without_log :: compile_result where
  "failed_run_without_log =
     \<lparr>launch_error = None, decode_error = None, returncode = 1,
      stderr = ''pdflatex: cannot write on file'', log_file = None, pdf_exists = False\<rparr>"

text \<open>
  The compiler exits with status 0 and writes no PDF file, and its captured output is not
  valid text.
\<close>

definition undecodable_run :: compile_result where
  "undecodable_run =
     \<lparr>launch_error = None, decode_error = Some ''utf-8 codec cannot decode byte 0xff'',
      returncode = 0, stderr = [], log_file = None, pdf_exists = False\<rparr>"

section \<open>Facts about the string operations\<close>

lemma startswith_prefix: "startswith s p = prefix p s"
  by (induction s p rule: startswith.induct) auto

lemma str_in_sublist: "str_in n h = sublist n h"
  by (induction h) (auto simp: startswith_prefix sublist_Cons_right)

lemma set_strip: "set (strip s) \<subseteq> set s"
proof -
  have "set (dropWhile isspace (rev (dropWhile isspace s))) \<subseteq> set (dropWhile isspace s)"
    using set_dropWhileD[of _ isspace "rev (dropWhile isspace s)"] by auto
  moreover have "set (dropWhile isspace s) \<subseteq> set s"
    using set_dropWhileD[of _ isspace s] by auto
  ultimately show ?thesis unfolding strip_def by simp
qed

lemma dropWhile_all_space: "(\<forall>x \<in> set (dropWhile isspace s). isspace x) \<longleftrightarrow> (\<forall>c \<in> set s. isspace c)"
proof
  assume a: "\<forall>x \<in> set (dropWhile isspace s). isspace x"
  have "dropWhile isspace s = []"
  proof (rule ccontr)
    assume n: "dropWhile isspace s \<noteq> []"
    then have "\<not> isspace (hd (dropWhile isspace s))" by (rule hd_dropWhile)
    moreover have "hd (dropWhile isspace s) \<in> set (dropWhile isspace s)" using n by (rule hd_in_set)
    ultimately show False using a by blast
  qed
  then show "\<forall>c \<in> set s. isspace c" by simp
next
  assume "\<forall>c \<in> set s. isspace c"
  then show "\<forall>x \<in> set (dropWhile isspace s). isspace x"
    using set_dropWhileD by fastforce
qed

lemma strip_Nil_iff: "strip s = [] \<longleftrightarrow> (\<forall>c \<in> set s. isspace c)"
  unfolding strip_def by (simp add: dropWhile_all_space)

lemma split_lines_not_Nil: "split_lines s \<noteq> []"
  by (induction s) (auto split: list.splits)

lemma split_lines_no_newline: "l \<in> set (split_lines s) \<Longrightarrow> newline \<notin> set l"
  by (induction s arbitrary: l) (auto split: list.splits if_splits)

lemma split_lines_single: "newline \<notin> set l \<Longrightarrow> split_lines l = [l]"
  by (induction l) auto

lemma split_lines_append: "newline \<notin> set l \<Longrightarrow> split_lines (l @ newline # r) = l # split_lines r"
  by (induction l) auto

lemma split_join_lines:
  "ls \<noteq> [] \<Longrightarrow> \<forall>l \<in> set ls. newline \<notin> set l \<Longrightarrow> split_lines (join_lines ls) = ls"
  by (induction ls rule: join_lines.induct) (auto simp: split_lines_single split_lines_append)

lemma length_last_n: "length (last_n n xs) \<le> n"
  by (simp add: last_n_def)

lemma strip_no_newline: "newline \<notin> set l \<Longrightarrow> newline \<notin> set (strip l)"
  using set_strip by blast

lemma space_chars_lower:
  "\<forall>c \<in> set [CHR 0x09, CHR 0x0A, CHR 0x0B, CHR 0x0C, CHR 0x0D, CHR 0x1C,
     CHR 0x1D, CHR 0x1E, CHR 0x1F, CHR 0x20, CHR 0x85, CHR 0xA0]. lower_char c = c"
  by code_simp

lemma isspace_lower_char: "isspace c \<Longrightarrow> lower_char c = c"
  using space_chars_lower unfolding isspace_def by blast

lemma str_in_hd: "str_in (k # ks) h \<Longrightarrow> k \<in> set h"
  by (induction h) (auto split: if_splits)

section \<open>Document normalisation\<close>

text \<open>
  C6. A markup text that contains the marker \<^verbatim>\<open>\documentclass\<close> is the document that is
  written to the workspace, character for character.
\<close>

theorem full_document_unchanged:
  "str_in documentclass_marker tikz_code \<Longrightarrow> latex_content tikz_code = tikz_code"
  by (simp add: latex_content_def)

theorem full_document_unchanged_witness:
  "str_in documentclass_marker (backslash # ''documentclass{article} x'')
   \<and> latex_content (backslash # ''documentclass{article} x'') = backslash # ''documentclass{article} x''"
proof -
  have h: "str_in documentclass_marker (backslash # ''documentclass{article} x'')"
    by code_simp
  show ?thesis using h full_document_unchanged [OF h] by blast
qed

text \<open>
  C7. A markup text without the marker is written between two constant texts, the head
  and the tail of the template, neither of which depends on the markup; so the document
  holds the markup as one contiguous piece.
\<close>

theorem fragment_wrapped:
  "\<not> str_in documentclass_marker tikz_code \<Longrightarrow>
     latex_content tikz_code = template_head @ tikz_code @ template_tail
     \<and> sublist tikz_code (latex_content tikz_code)"
  by (auto simp: latex_content_def sublist_def)

theorem fragment_wrapped_witness:
  "\<not> str_in documentclass_marker ''abc''
   \<and> latex_content ''abc'' = template_head @ ''abc'' @ template_tail
   \<and> sublist ''abc'' (latex_content ''abc'')"
proof -
  have h: "\<not> str_in documentclass_marker ''abc''"
    by code_simp
  show ?thesis using h fragment_wrapped [OF h] by blast
qed

section \<open>The scan of the compiler log\<close>

subsection \<open>Facts about the loop\<close>

lemma keyword_needs_ink:
  assumes "kw \<in> set trigger_keywords" and "str_in kw (lower line)"
  shows "\<exists>c \<in> set line. \<not> isspace c"
proof -
  obtain k ks where kw: "kw = k # ks" and k: "k \<in> set ''!eum''"
    using assms(1) by (auto simp: trigger_keywords_def)
  have "k \<in> set (lower line)" using assms(2) kw str_in_hd by blast
  then obtain c where c: "c \<in> set line" and lc: "lower_char c = k"
    by (auto simp: lower_def)
  have "\<not> isspace k" using k by (auto simp: isspace_def)
  then have "\<not> isspace c" using lc isspace_lower_char by fastforce
  then show ?thesis using c by blast
qed

lemma blank_not_triggers: "strip line = [] \<Longrightarrow> \<not> triggers line"
  using keyword_needs_ink by (auto simp: triggers_def list_ex_iff strip_Nil_iff)

lemma loop_body_blank:
  "strip line = [] \<Longrightarrow> error_section st \<Longrightarrow> error_lines st \<noteq> [] \<Longrightarrow>
     loop_body lines i line st = Break st"
  by (simp add: loop_body_def blank_not_triggers)

lemma scan_from_append:
  "scan_from lines (xs @ ys) st =
     (case scan_from lines xs st of Break s \<Rightarrow> Break s | Continue s \<Rightarrow> scan_from lines ys s)"
  by (induction xs arbitrary: st) (auto split: loop_ctl.splits)

lemma loop_body_idle:
  "\<not> triggers line \<Longrightarrow> \<not> error_section st \<Longrightarrow> loop_body lines i line st = Continue st"
  by (simp add: loop_body_def)

lemma scan_from_idle:
  "\<forall>p \<in> set entries. \<not> triggers (snd p) \<Longrightarrow> \<not> error_section st \<Longrightarrow>
     scan_from lines entries st = Continue st"
  by (induction entries arbitrary: st) (auto simp: loop_body_idle)

lemma scan_log_idle:
  assumes "\<forall>line \<in> set lines. \<not> triggers line"
  shows "scan_log lines = scan_init"
proof -
  have "\<forall>p \<in> set (enumerate 0 lines). \<not> triggers (snd p)"
    using assms by (auto simp: in_set_enumerate_eq)
  then have "scan_from lines (enumerate 0 lines) scan_init = Continue scan_init"
    by (rule scan_from_idle) (simp add: scan_init_def)
  then show ?thesis by (simp add: scan_log_def)
qed

lemma backfill_window: "[max 0 (i - 2) ..< i] = (if i = 0 then [] else if i = 1 then [0] else [i - 2, i - 1])"
proof -
  consider "i = 0" | "i = 1" | k where "i = Suc (Suc k)"
    by (metis One_nat_def not0_implies_Suc)
  then show ?thesis
  proof cases
    case 3
    then show ?thesis by (simp add: upt_rec [of k])
  qed simp_all
qed

lemma backfill_eq:
  "backfill lines i ctx =
     ctx @ remdups (filter (\<lambda>l. l \<noteq> [] \<and> l \<notin> set ctx) (map (\<lambda>j. strip (lines ! j)) [i - 2 ..< i]))"
proof -
  have w: "[i - 2 ..< i] = [max 0 (i - 2) ..< i]" by simp
  show ?thesis
    unfolding backfill_def w backfill_window by auto
qed

lemma backfill_at_most_2:
  "length (remdups (filter P (map f [i - 2 ..< i]))) \<le> 2"
proof -
  have "length (remdups (filter P (map f [i - 2 ..< i]))) \<le> length (map f [i - 2 ..< i])"
    by (meson length_filter_le length_remdups_leq le_trans)
  then show ?thesis by simp
qed

lemma triggers_iff:
  "triggers line \<longleftrightarrow>
     sublist ''! '' (lower line) \<or> sublist ''error:'' (lower line)
     \<or> sublist ''undefined'' (lower line) \<or> sublist ''missing'' (lower line)"
  by (simp add: triggers_def trigger_keywords_def str_in_sublist)

lemma loop_body_quiet:
  "\<not> triggers line \<Longrightarrow>
     error_section (ctl_state (loop_body lines i line st)) = error_section st
     \<and> context_lines (ctl_state (loop_body lines i line st)) = context_lines st"
  by (simp add: loop_body_def Let_def)

lemma backfill_no_newline:
  assumes "\<forall>l \<in> set lines. newline \<notin> set l" and "i \<le> length lines"
    and "\<forall>l \<in> set ctx. newline \<notin> set l"
  shows "\<forall>l \<in> set (backfill lines i ctx). newline \<notin> set l"
proof -
  have "\<forall>j \<in> set [i - 2 ..< i]. newline \<notin> set (strip (lines ! j))"
    using assms(1,2) by (auto intro!: strip_no_newline)
  then show ?thesis
    using assms(3) unfolding backfill_eq by auto
qed

lemma loop_body_no_newline:
  assumes "\<forall>l \<in> set lines. newline \<notin> set l" and "i \<le> length lines"
    and "newline \<notin> set line"
    and "\<forall>l \<in> set (error_lines st). newline \<notin> set l"
    and "\<forall>l \<in> set (context_lines st). newline \<notin> set l"
  shows "(\<forall>l \<in> set (error_lines (ctl_state (loop_body lines i line st))). newline \<notin> set l)
         \<and> (\<forall>l \<in> set (context_lines (ctl_state (loop_body lines i line st))). newline \<notin> set l)"
proof -
  have s: "newline \<notin> set (strip line)" using assms(3) by (rule strip_no_newline)
  have b: "\<forall>l \<in> set (backfill lines i (context_lines st)). newline \<notin> set l"
    using assms(1,2,5) by (rule backfill_no_newline)
  show ?thesis
    using s b assms(4,5) by (simp add: loop_body_def Let_def)
qed

lemma scan_from_no_newline:
  assumes "\<forall>l \<in> set lines. newline \<notin> set l"
    and "\<forall>p \<in> set entries. fst p < length lines \<and> snd p = lines ! fst p"
    and "\<forall>l \<in> set (error_lines st). newline \<notin> set l"
    and "\<forall>l \<in> set (context_lines st). newline \<notin> set l"
  shows "(\<forall>l \<in> set (error_lines (ctl_state (scan_from lines entries st))). newline \<notin> set l)
         \<and> (\<forall>l \<in> set (context_lines (ctl_state (scan_from lines entries st))). newline \<notin> set l)"
  using assms(2-)
proof (induction entries arbitrary: st)
  case Nil
  then show ?case by simp
next
  case (Cons p entries)
  obtain i line where p: "p = (i, line)" by (cases p)
  have i: "i \<le> length lines" and l: "newline \<notin> set line"
    using Cons.prems(1) assms(1) p by auto
  note step = loop_body_no_newline [OF assms(1) i l Cons.prems(2,3)]
  show ?case
  proof (cases "loop_body lines i line st")
    case (Break st')
    then show ?thesis using step p by simp
  next
    case (Continue st')
    have "(\<forall>l \<in> set (error_lines (ctl_state (scan_from lines entries st'))). newline \<notin> set l)
         \<and> (\<forall>l \<in> set (context_lines (ctl_state (scan_from lines entries st'))). newline \<notin> set l)"
      using Cons.IH [of st'] Cons.prems(1) step Continue by simp
    then show ?thesis using p Continue by simp
  qed
qed

lemma scan_log_no_newline:
  assumes "\<forall>l \<in> set lines. newline \<notin> set l"
  shows "(\<forall>l \<in> set (error_lines (scan_log lines)). newline \<notin> set l)
         \<and> (\<forall>l \<in> set (context_lines (scan_log lines)). newline \<notin> set l)"
  unfolding scan_log_def
  by (rule scan_from_no_newline [OF assms]) (auto simp: in_set_enumerate_eq scan_init_def)

lemma separator_no_newline: "newline \<notin> set separator"
  by (simp add: separator_def newline_def)

lemma report_lines_no_newline:
  assumes "\<forall>l \<in> set lines. newline \<notin> set l"
  shows "\<forall>l \<in> set (report_lines lines). newline \<notin> set l"
proof -
  have f: "\<forall>l \<in> set (last_n 15 (filter (\<lambda>line. strip line \<noteq> []) (last_n 50 lines))). newline \<notin> set l"
    using assms unfolding last_n_def by (meson filter_is_subset in_set_dropD subsetD)
  have t: "\<forall>l \<in> set (take 20 (context_lines (scan_log lines) @ [separator] @ error_lines (scan_log lines))). newline \<notin> set l"
    using scan_log_no_newline [OF assms] separator_no_newline
    by (auto dest!: in_set_takeD)
  show ?thesis
    using f t by (simp add: report_lines_def Let_def)
qed

lemma report_lines_structured:
  "context_lines (scan_log lines) \<noteq> [] \<or> error_lines (scan_log lines) \<noteq> [] \<Longrightarrow>
     report_lines lines =
       take 20 (context_lines (scan_log lines) @ [separator] @ error_lines (scan_log lines))"
  by (simp add: report_lines_def Let_def)

lemma report_lines_fallback:
  "context_lines (scan_log lines) = [] \<and> error_lines (scan_log lines) = [] \<Longrightarrow>
     report_lines lines = last_n 15 (filter (\<lambda>line. strip line \<noteq> []) (last_n 50 lines))"
  by (simp add: report_lines_def Let_def)

lemma report_lines_length: "length (report_lines lines) \<le> 20"
proof (cases "context_lines (scan_log lines) \<noteq> [] \<or> error_lines (scan_log lines) \<noteq> []")
  case True
  have "length (take 20 (context_lines (scan_log lines) @ [separator] @ error_lines (scan_log lines))) \<le> 20"
    by (simp only: length_take min.cobounded2)
  then show ?thesis by (simp only: report_lines_structured [OF True])
next
  case False
  then have f: "context_lines (scan_log lines) = [] \<and> error_lines (scan_log lines) = []" by blast
  have "length (last_n 15 (filter (\<lambda>line. strip line \<noteq> []) (last_n 50 lines))) \<le> 15"
    by (rule length_last_n)
  then show ?thesis by (simp only: report_lines_fallback [OF f])
qed

lemma count_joined_lines:
  assumes "\<forall>l \<in> set ls. newline \<notin> set l"
  shows "length (split_lines (join_lines ls)) = max 1 (length ls)"
proof (cases "ls = []")
  case True
  then show ?thesis by simp
next
  case False
  then have "split_lines (join_lines ls) = ls" using assms by (rule split_join_lines)
  then show ?thesis using False by (cases ls) simp_all
qed

text \<open>
  Line 83 against the words of the specification: on the characters of the keywords,
  lower-casing a character of the line and comparing is matching without regard to case.
\<close>

lemma upper_chars_distinct: "distinct upper_chars"
  by code_simp

lemma case_table_length: "length upper_chars = length lower_chars"
  by code_simp

lemma case_table_split:
  "zip upper_chars lower_chars =
     zip ''ABCDEFGHIJKLMNOPQRSTUVWXYZ'' ''abcdefghijklmnopqrstuvwxyz'' @
     zip (drop 26 upper_chars) (drop 26 lower_chars)"
  by code_simp

lemma keyword_chars_not_upper:
  "\<forall>k \<in> set ''! eror:undfimsg''. k \<notin> set upper_chars \<and> k \<notin> set (drop 26 lower_chars)"
  by code_simp

lemma lower_char_keyword_char:
  assumes "k \<in> set ''! eror:undfimsg''"
  shows "lower_char c = k \<longleftrightarrow> caseless_match c k"
proof -
  define A where "A = zip ''ABCDEFGHIJKLMNOPQRSTUVWXYZ'' ''abcdefghijklmnopqrstuvwxyz''"
  define L where "L = zip (drop 26 upper_chars) (drop 26 lower_chars)"
  define T where "T = zip upper_chars lower_chars"
  have cm: "caseless_match c k \<longleftrightarrow> c = k \<or> (c, k) \<in> set A"
    unfolding caseless_match_def A_def by (rule refl)
  have lc: "lower_char c = (case map_of T c of Some d \<Rightarrow> d | None \<Rightarrow> c)"
    unfolding lower_char_def T_def by (rule refl)
  have fst: "map fst T = upper_chars"
    unfolding T_def using case_table_length by simp
  have d: "distinct (map fst T)"
    using upper_chars_distinct by (simp only: fst)
  have k1: "k \<notin> set upper_chars" and k2: "k \<notin> set (drop 26 lower_chars)"
    using assms keyword_chars_not_upper by blast+
  have latin: "(c, k) \<notin> set L"
    unfolding L_def using k2 by (meson set_zip_rightD)
  have "T = A @ L"
    unfolding T_def A_def L_def by (rule case_table_split)
  then have tab: "(c, k) \<in> set T \<longleftrightarrow> (c, k) \<in> set A"
    using latin by simp
  show ?thesis
  proof (cases "map_of T c")
    case None
    then have "(c, k) \<notin> set T"
      using d by (metis map_of_eq_Some_iff option.distinct(1))
    then show ?thesis
      using None lc cm tab by simp
  next
    case (Some d')
    have "(c, d') \<in> set T" using Some by (rule map_of_SomeD)
    then have "c \<in> set (map fst T)" by force
    then have ne: "c \<noteq> k" using k1 fst by metis
    have "d' = k \<longleftrightarrow> (c, k) \<in> set T"
      using Some d by (metis map_of_eq_Some_iff option.inject)
    then show ?thesis
      using Some lc cm tab ne by simp
  qed
qed

lemma keyword_chars:
  "\<forall>kw \<in> set trigger_keywords. \<forall>k \<in> set kw. k \<in> set ''! eror:undfimsg''"
  by code_simp

lemma lower_char_keyword:
  assumes "kw \<in> set trigger_keywords" and "k \<in> set kw"
  shows "lower_char c = k \<longleftrightarrow> caseless_match c k"
proof (rule lower_char_keyword_char)
  show "k \<in> set ''! eror:undfimsg''"
  proof -
    from keyword_chars assms(1) have "\<forall>k \<in> set kw. k \<in> set ''! eror:undfimsg''"
      by (rule bspec)
    then show ?thesis using assms(2) by (rule bspec)
  qed
qed

lemma map_lower_keyword:
  assumes "kw \<in> set trigger_keywords"
  shows "map lower_char piece = kw \<longleftrightarrow> list_all2 caseless_match piece kw"
proof -
  have "map lower_char piece = kw \<longleftrightarrow> list_all2 (\<lambda>c k. lower_char c = k) piece kw"
    by (simp add: list_all2_conv_all_nth list_eq_iff_nth_eq)
  also have "\<dots> \<longleftrightarrow> list_all2 caseless_match piece kw"
    by (auto simp: list_all2_conv_all_nth lower_char_keyword [OF assms])
  finally show ?thesis .
qed

lemma sublist_map_iff:
  "sublist kw (map f line) \<longleftrightarrow>
     (\<exists>before piece after. line = before @ piece @ after \<and> map f piece = kw)"
proof
  assume "sublist kw (map f line)"
  then obtain ps ss where m: "map f line = ps @ kw @ ss"
    unfolding sublist_def by blast
  let ?before = "take (length ps) line"
  let ?piece = "take (length kw) (drop (length ps) line)"
  let ?after = "drop (length kw) (drop (length ps) line)"
  have "line = ?before @ ?piece @ ?after"
    by (simp only: append_take_drop_id)
  moreover have "map f ?piece = take (length kw) (drop (length ps) (map f line))"
    by (simp only: take_map drop_map)
  then have "map f ?piece = kw"
    by (simp only: m) simp
  ultimately show "\<exists>before piece after. line = before @ piece @ after \<and> map f piece = kw"
    by (intro exI conjI)
next
  assume "\<exists>before piece after. line = before @ piece @ after \<and> map f piece = kw"
  then obtain before piece after where l: "line = before @ piece @ after" and k: "map f piece = kw"
    by (elim exE conjE)
  have "map f line = map f before @ kw @ map f after"
    unfolding l k [symmetric] by (simp only: map_append)
  then show "sublist kw (map f line)" unfolding sublist_def by (intro exI)
qed

lemma str_in_lower_keyword:
  assumes "kw \<in> set trigger_keywords"
  shows "str_in kw (lower line) \<longleftrightarrow> contains_caseless kw line"
  unfolding str_in_sublist lower_def sublist_map_iff contains_caseless_def
  using map_lower_keyword [OF assms] by simp

lemma triggers_caseless:
  "triggers line \<longleftrightarrow> (\<exists>kw \<in> set [''! '', ''error:'', ''undefined'', ''missing'']. contains_caseless kw line)"
proof -
  have "triggers line \<longleftrightarrow> (\<exists>kw \<in> set trigger_keywords. str_in kw (lower line))"
    by (simp add: triggers_def list_ex_iff)
  also have "\<dots> \<longleftrightarrow> (\<exists>kw \<in> set trigger_keywords. contains_caseless kw line)"
    using str_in_lower_keyword by blast
  finally show ?thesis by (simp only: trigger_keywords_def)
qed

lemma last_n_suffix: "suffix (last_n n xs) xs \<and> length (last_n n xs) = min n (length xs)"
  unfolding last_n_def by (auto simp: suffix_drop)

text \<open>
  Lines 116 and 117: an empty report is replaced by the standard error of the compiler,
  whatever its length.
\<close>

lemma empty_report_uses_stderr:
  "log_file e = Some log_content \<Longrightarrow> log_error_details log_content = [] \<Longrightarrow>
     stderr e \<noteq> [] \<Longrightarrow> error_details e = stderr e"
  by (simp add: error_details_def)

subsection \<open>The claims about the scan\<close>

text \<open>
  C4. A line triggers exactly when it contains, without regard to case, one of \<^verbatim>\<open>"! "\<close>,
  \<^verbatim>\<open>"error:"\<close>, \<^verbatim>\<open>"undefined"\<close>, \<^verbatim>\<open>"missing"\<close>: some contiguous piece of the line
  matches the keyword character by character, each character equal to the keyword's or
  its capital. This is the same as the lower-cased line containing the keyword. On a
  trigger the pass through the loop body sets the flag, appends the stripped line to the
  error lines, and appends to the context lines the stripped texts of the lines at
  indices \<open>i - 2\<close> and \<open>i - 1\<close> (those that exist) that are not empty and not yet among
  the context lines, each once: at most two. A line that does not trigger changes neither
  the flag nor the context lines.
\<close>

theorem trigger_step:
  "(triggers line \<longleftrightarrow>
      (\<exists>kw \<in> set [''! '', ''error:'', ''undefined'', ''missing'']. contains_caseless kw line))
   \<and> (triggers line \<longleftrightarrow>
      sublist ''! '' (lower line) \<or> sublist ''error:'' (lower line)
      \<or> sublist ''undefined'' (lower line) \<or> sublist ''missing'' (lower line))
   \<and> (triggers line \<longrightarrow>
        loop_body lines i line st =
          Continue (st\<lparr>error_section := True,
                       error_lines := error_lines st @ [strip line],
                       context_lines := context_lines st @
                         remdups (filter (\<lambda>l. l \<noteq> [] \<and> l \<notin> set (context_lines st))
                           (map (\<lambda>j. strip (lines ! j)) [i - 2 ..< i]))\<rparr>))
   \<and> length (remdups (filter (\<lambda>l. l \<noteq> [] \<and> l \<notin> set (context_lines st))
                (map (\<lambda>j. strip (lines ! j)) [i - 2 ..< i]))) \<le> 2
   \<and> (\<not> triggers line \<longrightarrow>
        error_section (ctl_state (loop_body lines i line st)) = error_section st
        \<and> context_lines (ctl_state (loop_body lines i line st)) = context_lines st)"
proof -
  have p1: "triggers line \<longleftrightarrow>
      (\<exists>kw \<in> set [''! '', ''error:'', ''undefined'', ''missing'']. contains_caseless kw line)"
    by (rule triggers_caseless)
  have p2: "triggers line \<longleftrightarrow>
      sublist ''! '' (lower line) \<or> sublist ''error:'' (lower line)
      \<or> sublist ''undefined'' (lower line) \<or> sublist ''missing'' (lower line)"
    by (rule triggers_iff)
  have p3: "triggers line \<longrightarrow>
        loop_body lines i line st =
          Continue (st\<lparr>error_section := True,
                       error_lines := error_lines st @ [strip line],
                       context_lines := context_lines st @
                         remdups (filter (\<lambda>l. l \<noteq> [] \<and> l \<notin> set (context_lines st))
                           (map (\<lambda>j. strip (lines ! j)) [i - 2 ..< i]))\<rparr>)"
    by (simp add: loop_body_def Let_def backfill_eq)
  have p4: "length (remdups (filter (\<lambda>l. l \<noteq> [] \<and> l \<notin> set (context_lines st))
                (map (\<lambda>j. strip (lines ! j)) [i - 2 ..< i]))) \<le> 2"
    by (rule backfill_at_most_2)
  have p5: "\<not> triggers line \<longrightarrow>
        error_section (ctl_state (loop_body lines i line st)) = error_section st
        \<and> context_lines (ctl_state (loop_body lines i line st)) = context_lines st"
    using loop_body_quiet [of line lines i st] by (rule impI)
  show ?thesis
    by (rule conjI [OF p1 conjI [OF p2 conjI [OF p3 conjI [OF p4 p5]]]])
qed

theorem trigger_step_witness:
  "triggers ''Package tikz Error: Giving up''
   \<and> (\<exists>kw \<in> set [''! '', ''error:'', ''undefined'', ''missing''].
         contains_caseless kw ''Package tikz Error: Giving up'')
   \<and> loop_body [''alpha'', ''  beta '', ''Package tikz Error: Giving up''] 2
        ''Package tikz Error: Giving up'' scan_init =
      Continue \<lparr>error_section = True, error_lines = [''Package tikz Error: Giving up''],
                context_lines = [''alpha'', ''beta'']\<rparr>
   \<and> triggers ''UNDEFINED'' \<and> triggers ''x Missing y'' \<and> triggers ''! ''
   \<and> \<not> triggers ''plain text''
   \<and> context_lines (ctl_state (loop_body [''alpha'', ''plain text''] 1 ''plain text'' scan_init)) =
       context_lines scan_init"
proof -
  let ?lines = "[''alpha'', ''  beta '', ''Package tikz Error: Giving up'']"
  let ?line = "''Package tikz Error: Giving up''"
  have a: "triggers ?line" by code_simp
  have a': "triggers ''UNDEFINED'' \<and> triggers ''x Missing y'' \<and> triggers ''! ''" by code_simp
  have b: "\<not> triggers ''plain text''" by code_simp
  have c: "scan_init\<lparr>error_section := True,
             error_lines := error_lines scan_init @ [strip ?line],
             context_lines := context_lines scan_init @
               remdups (filter (\<lambda>l. l \<noteq> [] \<and> l \<notin> set (context_lines scan_init))
                 (map (\<lambda>j. strip (?lines ! j)) [2 - 2 ..< 2]))\<rparr>
           = \<lparr>error_section = True, error_lines = [''Package tikz Error: Giving up''],
                context_lines = [''alpha'', ''beta'']\<rparr>"
    by code_simp
  note t = trigger_step [of ?line ?lines 2 scan_init]
  have k: "\<exists>kw \<in> set [''! '', ''error:'', ''undefined'', ''missing'']. contains_caseless kw ?line"
    using t [THEN conjunct1] a by (rule iffD1)
  have "loop_body ?lines 2 ?line scan_init =
      Continue (scan_init\<lparr>error_section := True,
             error_lines := error_lines scan_init @ [strip ?line],
             context_lines := context_lines scan_init @
               remdups (filter (\<lambda>l. l \<noteq> [] \<and> l \<notin> set (context_lines scan_init))
                 (map (\<lambda>j. strip (?lines ! j)) [2 - 2 ..< 2]))\<rparr>)"
    using t [THEN conjunct2, THEN conjunct2, THEN conjunct1] a by (rule mp)
  then have d: "loop_body ?lines 2 ?line scan_init =
      Continue \<lparr>error_section = True, error_lines = [''Package tikz Error: Giving up''],
                context_lines = [''alpha'', ''beta'']\<rparr>"
    by (simp only: c)
  have "error_section (ctl_state (loop_body [''alpha'', ''plain text''] 1 ''plain text'' scan_init)) =
          error_section scan_init
        \<and> context_lines (ctl_state (loop_body [''alpha'', ''plain text''] 1 ''plain text'' scan_init)) =
       context_lines scan_init"
    using trigger_step [of "''plain text''" "[''alpha'', ''plain text'']" 1 scan_init,
        THEN conjunct2, THEN conjunct2, THEN conjunct2, THEN conjunct2] b
    by (rule mp)
  then have e: "context_lines (ctl_state (loop_body [''alpha'', ''plain text''] 1 ''plain text'' scan_init)) =
       context_lines scan_init"
    by (rule conjunct2)
  show ?thesis
    by (rule conjI [OF a conjI [OF k conjI [OF d
          conjI [OF a' [THEN conjunct1] conjI [OF a' [THEN conjunct2, THEN conjunct1]
          conjI [OF a' [THEN conjunct2, THEN conjunct2] conjI [OF b e]]]]]]])
qed

text \<open>
  C5. When the lines before a blank line have been scanned without a \<^verbatim>\<open>break\<close>, the flag
  is set and an error line has been collected, the loop stops at the blank line with the
  accumulators as they are there, whatever lines follow; so these are the accumulators
  of the whole scan.
\<close>

theorem blank_line_ends_scan:
  assumes "scan_from lines before st0 = Continue st"
    and "error_section st" and "error_lines st \<noteq> []" and "strip line = []"
  shows "scan_from lines (before @ (i, line) # rest) st0 = Break st
         \<and> (st0 = scan_init \<and> enumerate 0 lines = before @ (i, line) # rest \<longrightarrow>
              scan_log lines = st)"
proof -
  have a: "scan_from lines (before @ (i, line) # rest) st0 = Break st"
    using assms by (simp add: scan_from_append loop_body_blank)
  then show ?thesis by (auto simp: scan_log_def)
qed

theorem blank_line_ends_scan_witness:
  "scan_from [''! Undefined control sequence.'', ''l.3 foo'', '''', ''! Missing $ inserted.'']
     ([(0, ''! Undefined control sequence.''), (1, ''l.3 foo'')] @ (2, '''') # [(3, ''! Missing $ inserted.'')])
     scan_init =
   Break \<lparr>error_section = True, error_lines = [''! Undefined control sequence.'', ''l.3 foo''],
          context_lines = []\<rparr>
   \<and> scan_log [''! Undefined control sequence.'', ''l.3 foo'', '''', ''! Missing $ inserted.''] =
     \<lparr>error_section = True, error_lines = [''! Undefined control sequence.'', ''l.3 foo''],
          context_lines = []\<rparr>"
proof -
  let ?lines = "[''! Undefined control sequence.'', ''l.3 foo'', '''', ''! Missing $ inserted.'']"
  let ?st = "\<lparr>error_section = True, error_lines = [''! Undefined control sequence.'', ''l.3 foo''],
          context_lines = []\<rparr>"
  have a: "scan_from ?lines [(0, ''! Undefined control sequence.''), (1, ''l.3 foo'')] scan_init
             = Continue ?st"
    by code_simp
  have b: "error_section ?st" and c: "error_lines ?st \<noteq> []" and d: "strip '''' = []"
    by (simp_all add: strip_def)
  have e: "enumerate 0 ?lines =
      [(0, ''! Undefined control sequence.''), (1, ''l.3 foo'')] @ (2, '''') # [(3, ''! Missing $ inserted.'')]"
    by code_simp
  show ?thesis
    using blank_line_ends_scan [OF a b c d, of 2 "[(3, ''! Missing $ inserted.'')]"] e by blast
qed

text \<open>
  C3. When no line of the log triggers, both accumulators stay empty and the report is
  made from the last 50 lines of the log (all of them when there are fewer): the blank
  ones are dropped, and the last 15 of what remains (all when there are fewer) are joined
  by newlines.
\<close>

theorem no_trigger_falls_back:
  assumes "\<forall>line \<in> set (split_lines log_content). \<not> triggers line"
  shows "error_lines (scan_log (split_lines log_content)) = []
         \<and> context_lines (scan_log (split_lines log_content)) = []
         \<and> log_error_details log_content =
             join_lines
               (drop (length (filter (\<lambda>line. strip line \<noteq> [])
                        (drop (length (split_lines log_content) - 50) (split_lines log_content))) - 15)
                  (filter (\<lambda>line. strip line \<noteq> [])
                     (drop (length (split_lines log_content) - 50) (split_lines log_content))))"
  using scan_log_idle [OF assms]
  by (simp add: log_error_details_def report_lines_def scan_init_def last_n_def)

theorem no_trigger_falls_back_witness:
  "log_error_details
     ''n01\<newline>n02\<newline>  \<newline>n04\<newline>n05\<newline>  \<newline>n07\<newline>n08\<newline>  \<newline>n10\<newline>n11\<newline>  \<newline>n13\<newline>n14\<newline>  \<newline>n16\<newline>n17\<newline>  \<newline>n19\<newline>n20\<newline>  \<newline>n22\<newline>n23\<newline>  \<newline>n25\<newline>n26\<newline>  \<newline>n28\<newline>n29\<newline>  \<newline>n31\<newline>n32\<newline>  \<newline>n34\<newline>n35\<newline>  \<newline>n37\<newline>n38\<newline>  \<newline>n40\<newline>n41\<newline>  \<newline>n43\<newline>n44\<newline>  \<newline>n46\<newline>n47\<newline>  \<newline>n49\<newline>n50\<newline>  \<newline>n52\<newline>n53\<newline>  \<newline>n55\<newline>n56\<newline>  \<newline>n58\<newline>n59\<newline>  '' =
   ''n38\<newline>n40\<newline>n41\<newline>n43\<newline>n44\<newline>n46\<newline>n47\<newline>n49\<newline>n50\<newline>n52\<newline>n53\<newline>n55\<newline>n56\<newline>n58\<newline>n59''
   \<and> log_error_details
     ''e01\<newline>e02\<newline>e03\<newline>e04\<newline>e05\<newline>e06\<newline>e07\<newline>e08\<newline>e09\<newline>e10\<newline>\<newline>\<newline>\<newline>\<newline>\<newline>\<newline>\<newline>\<newline>\<newline>k20\<newline>\<newline>\<newline>\<newline>\<newline>\<newline>\<newline>\<newline>\<newline>\<newline>\<newline>\<newline>\<newline>\<newline>\<newline>\<newline>\<newline>\<newline>\<newline>\<newline>k40\<newline>\<newline>\<newline>\<newline>\<newline>\<newline>\<newline>\<newline>\<newline>\<newline>\<newline>\<newline>\<newline>\<newline>\<newline>\<newline>\<newline>\<newline>\<newline>\<newline>k60'' =
   ''k20\<newline>k40\<newline>k60''"
proof -
  let ?a = "''n01\<newline>n02\<newline>  \<newline>n04\<newline>n05\<newline>  \<newline>n07\<newline>n08\<newline>  \<newline>n10\<newline>n11\<newline>  \<newline>n13\<newline>n14\<newline>  \<newline>n16\<newline>n17\<newline>  \<newline>n19\<newline>n20\<newline>  \<newline>n22\<newline>n23\<newline>  \<newline>n25\<newline>n26\<newline>  \<newline>n28\<newline>n29\<newline>  \<newline>n31\<newline>n32\<newline>  \<newline>n34\<newline>n35\<newline>  \<newline>n37\<newline>n38\<newline>  \<newline>n40\<newline>n41\<newline>  \<newline>n43\<newline>n44\<newline>  \<newline>n46\<newline>n47\<newline>  \<newline>n49\<newline>n50\<newline>  \<newline>n52\<newline>n53\<newline>  \<newline>n55\<newline>n56\<newline>  \<newline>n58\<newline>n59\<newline>  ''"
  let ?b = "''e01\<newline>e02\<newline>e03\<newline>e04\<newline>e05\<newline>e06\<newline>e07\<newline>e08\<newline>e09\<newline>e10\<newline>\<newline>\<newline>\<newline>\<newline>\<newline>\<newline>\<newline>\<newline>\<newline>k20\<newline>\<newline>\<newline>\<newline>\<newline>\<newline>\<newline>\<newline>\<newline>\<newline>\<newline>\<newline>\<newline>\<newline>\<newline>\<newline>\<newline>\<newline>\<newline>\<newline>k40\<newline>\<newline>\<newline>\<newline>\<newline>\<newline>\<newline>\<newline>\<newline>\<newline>\<newline>\<newline>\<newline>\<newline>\<newline>\<newline>\<newline>\<newline>\<newline>\<newline>k60''"
  have a: "\<forall>line \<in> set (split_lines ?a). \<not> triggers line"
    by code_simp
  have b: "\<forall>line \<in> set (split_lines ?b). \<not> triggers line"
    by code_simp
  have ra: "join_lines
       (drop (length (filter (\<lambda>line. strip line \<noteq> [])
                (drop (length (split_lines ?a) - 50) (split_lines ?a))) - 15)
          (filter (\<lambda>line. strip line \<noteq> [])
             (drop (length (split_lines ?a) - 50) (split_lines ?a)))) =
     ''n38\<newline>n40\<newline>n41\<newline>n43\<newline>n44\<newline>n46\<newline>n47\<newline>n49\<newline>n50\<newline>n52\<newline>n53\<newline>n55\<newline>n56\<newline>n58\<newline>n59''"
    by code_simp
  have rb: "join_lines
       (drop (length (filter (\<lambda>line. strip line \<noteq> [])
                (drop (length (split_lines ?b) - 50) (split_lines ?b))) - 15)
          (filter (\<lambda>line. strip line \<noteq> [])
             (drop (length (split_lines ?b) - 50) (split_lines ?b)))) =
     ''k20\<newline>k40\<newline>k60''"
    by code_simp
  have "log_error_details ?a =
     ''n38\<newline>n40\<newline>n41\<newline>n43\<newline>n44\<newline>n46\<newline>n47\<newline>n49\<newline>n50\<newline>n52\<newline>n53\<newline>n55\<newline>n56\<newline>n58\<newline>n59''"
    using no_trigger_falls_back [OF a] by (simp only: ra)
  moreover have "log_error_details ?b =
     ''k20\<newline>k40\<newline>k60''"
    using no_trigger_falls_back [OF b] by (simp only: rb)
  ultimately show ?thesis by (rule conjI)
qed

text \<open>
  C2. For every log the report built by lines 108 to 114 has at most 20 lines, as a list
  before it is joined and as the joined text; when an accumulator is not empty it is the
  first 20 of the context lines, the separator and the error lines; otherwise it is the
  fallback, which has at most 15 lines. The standard error that line 117 puts in the place
  of an empty report is not part of this report.
\<close>

theorem report_at_most_20_lines:
  "length (report_lines (split_lines log_content)) \<le> 20
   \<and> length (split_lines (log_error_details log_content)) \<le> 20
   \<and> (context_lines (scan_log (split_lines log_content)) \<noteq> []
        \<or> error_lines (scan_log (split_lines log_content)) \<noteq> [] \<longrightarrow>
      report_lines (split_lines log_content) =
        take 20 (context_lines (scan_log (split_lines log_content)) @ [separator]
                 @ error_lines (scan_log (split_lines log_content))))
   \<and> (context_lines (scan_log (split_lines log_content)) = []
        \<and> error_lines (scan_log (split_lines log_content)) = [] \<longrightarrow>
      length (report_lines (split_lines log_content)) \<le> 15)"
proof -
  let ?lines = "split_lines log_content"
  have n: "\<forall>l \<in> set ?lines. newline \<notin> set l"
    using split_lines_no_newline by blast
  have "length (split_lines (join_lines (report_lines ?lines))) = max 1 (length (report_lines ?lines))"
    using report_lines_no_newline [OF n] by (rule count_joined_lines)
  then have a: "length (split_lines (log_error_details log_content)) \<le> 20"
    using report_lines_length [of ?lines] by (simp add: log_error_details_def)
  have b: "context_lines (scan_log ?lines) \<noteq> [] \<or> error_lines (scan_log ?lines) \<noteq> [] \<longrightarrow>
      report_lines ?lines =
        take 20 (context_lines (scan_log ?lines) @ [separator] @ error_lines (scan_log ?lines))"
    using report_lines_structured [of ?lines] by blast
  have c: "context_lines (scan_log ?lines) = [] \<and> error_lines (scan_log ?lines) = [] \<longrightarrow>
      length (report_lines ?lines) \<le> 15"
    using report_lines_fallback [of ?lines] length_last_n [of 15] by metis
  show ?thesis
    using report_lines_length [of ?lines] a b c by blast
qed

theorem report_at_most_20_lines_witness:
  "error_lines (scan_log (split_lines ''a\<newline>! Undefined control sequence.\<newline>l.5 foo\<newline>\<newline>zzz'')) \<noteq> []
   \<and> report_lines (split_lines ''a\<newline>! Undefined control sequence.\<newline>l.5 foo\<newline>\<newline>zzz'') =
       [''a'', ''--- Error Details ---'', ''! Undefined control sequence.'', ''l.5 foo'']"
proof -
  let ?log = "''a\<newline>! Undefined control sequence.\<newline>l.5 foo\<newline>\<newline>zzz''"
  have a: "error_lines (scan_log (split_lines ?log)) \<noteq> []"
    by code_simp
  have b: "take 20 (context_lines (scan_log (split_lines ?log)) @ [separator]
                 @ error_lines (scan_log (split_lines ?log))) =
           [''a'', ''--- Error Details ---'', ''! Undefined control sequence.'', ''l.5 foo'']"
    by code_simp
  have "report_lines (split_lines ?log) =
        take 20 (context_lines (scan_log (split_lines ?log)) @ [separator]
                 @ error_lines (scan_log (split_lines ?log)))"
    using report_at_most_20_lines [of ?log] a by blast
  then have "report_lines (split_lines ?log) =
       [''a'', ''--- Error Details ---'', ''! Undefined control sequence.'', ''l.5 foo'']"
    by (simp only: b)
  with a show ?thesis by blast
qed

section \<open>The pipeline\<close>

text \<open>
  The hypotheses of this section say that the compiler was run to its end: both probes
  found their tool, the compiler process started, and its captured output is valid text.
  When the output is not valid text the run raises the decoding error at every exit
  status, whether or not a PDF file or a log file exists.
\<close>

lemma undecodable_output_raises:
  assumes "pdflatex_probe w = Found" and "convert_probe w = Found"
    and "launch_error (run_pdflatex w (latex_content tikz_code)) = None"
    and "decode_error (run_pdflatex w (latex_content tikz_code)) = Some msg"
  shows "snd (compile_tikz_to_image w tikz_code) = Inl (UnicodeDecodeError msg)"
  using assms by (simp add: compile_tikz_to_image_def Let_def)

lemma undecodable_run_raises:
  "returncode undecodable_run = 0 \<and> \<not> pdf_exists undecodable_run
   \<and> snd (compile_tikz_to_image (sample_env undecodable_run sample_convert) ''x'') =
       Inl (UnicodeDecodeError ''utf-8 codec cannot decode byte 0xff'')"
  by (simp add: compile_tikz_to_image_def Let_def sample_env_def undecodable_run_def)

lemma probe_error_propagates:
  "pdflatex_probe w = ProbeRaises msg \<Longrightarrow>
     compile_tikz_to_image w tikz_code = ([ProbePdflatex], Inl (OSError msg))"
  by (simp add: compile_tikz_to_image_def)

text \<open>
  C1, as amended. When the compiler was run to its end and exits with a status other than
  zero, the pipeline raises the compile failure, whose reason is \<open>error_details\<close> of the
  run, and the converter is not run. Whether the PDF file exists makes no difference: the
  file is looked for only after an exit with status zero.
\<close>

theorem nonzero_exit_is_compile_failure:
  assumes "pdflatex_probe w = Found" and "convert_probe w = Found"
    and "launch_error (run_pdflatex w (latex_content tikz_code)) = None"
    and "decode_error (run_pdflatex w (latex_content tikz_code)) = None"
    and "returncode (run_pdflatex w (latex_content tikz_code)) \<noteq> 0"
  shows "snd (compile_tikz_to_image w tikz_code) =
           Inl (compilation_failed (error_details (run_pdflatex w (latex_content tikz_code))))
         \<and> RunConvert \<notin> set (fst (compile_tikz_to_image w tikz_code))
         \<and> compile_tikz_to_image
             (w\<lparr>run_pdflatex := \<lambda>doc. (run_pdflatex w doc)\<lparr>pdf_exists := b\<rparr>\<rparr>) tikz_code =
           compile_tikz_to_image w tikz_code"
  using assms
  by (auto simp: compile_tikz_to_image_def Let_def error_details_def split: option.splits)

theorem nonzero_exit_is_compile_failure_witness:
  "snd (compile_tikz_to_image (sample_env failed_run_with_pdf sample_convert) ''x'') =
     Inl (compilation_failed (error_details failed_run_with_pdf))
   \<and> RunConvert \<notin> set (fst (compile_tikz_to_image (sample_env failed_run_with_pdf sample_convert) ''x''))"
proof -
  let ?w = "sample_env failed_run_with_pdf sample_convert"
  have a: "pdflatex_probe ?w = Found" and b: "convert_probe ?w = Found"
    by (simp_all add: sample_env_def)
  have l: "launch_error (run_pdflatex ?w (latex_content ''x'')) = None"
    and u: "decode_error (run_pdflatex ?w (latex_content ''x'')) = None"
    by (simp_all add: sample_env_def failed_run_with_pdf_def)
  have c: "returncode (run_pdflatex ?w (latex_content ''x'')) \<noteq> 0"
    by (simp add: sample_env_def failed_run_with_pdf_def)
  have d: "run_pdflatex ?w (latex_content ''x'') = failed_run_with_pdf"
    by (simp add: sample_env_def)
  show ?thesis
    using nonzero_exit_is_compile_failure [OF a b l u c, of True] d by simp
qed

text \<open>
  C1 as stated fails: the run \<open>failed_run_with_pdf\<close> exits with status 1 and leaves a PDF
  file, and the pipeline raises the compile failure without running the converter.
\<close>

theorem nonzero_exit_with_pdf_counterexample:
  "returncode failed_run_with_pdf \<noteq> 0 \<and> pdf_exists failed_run_with_pdf
   \<and> compile_tikz_to_image (sample_env failed_run_with_pdf sample_convert) ''x'' =
       ([ProbePdflatex, ProbeConvert, CreateWorkspace, WriteTex (latex_content ''x''), RunPdflatex,
         RemoveWorkspace],
        Inl (RuntimeError (''LaTeX compilation failed:\<newline>\<newline>--- Error Details ---\<newline>! Undefined control sequence.\<newline>l.3 '' @ backslash # ''foo'')))"
  by code_simp

text \<open>
  C9. When the compiler was run to its end, exits with status zero and the PDF file is
  absent, the pipeline raises the failure \<^verbatim>\<open>PDF file was not generated\<close> and the converter
  is not run.
\<close>

theorem missing_pdf_reported:
  assumes "pdflatex_probe w = Found" and "convert_probe w = Found"
    and "launch_error (run_pdflatex w (latex_content tikz_code)) = None"
    and "decode_error (run_pdflatex w (latex_content tikz_code)) = None"
    and "returncode (run_pdflatex w (latex_content tikz_code)) = 0"
    and "\<not> pdf_exists (run_pdflatex w (latex_content tikz_code))"
  shows "snd (compile_tikz_to_image w tikz_code) = Inl (RuntimeError ''PDF file was not generated'')
         \<and> RunConvert \<notin> set (fst (compile_tikz_to_image w tikz_code))"
  using assms by (simp add: compile_tikz_to_image_def Let_def)

theorem missing_pdf_reported_witness:
  "snd (compile_tikz_to_image (sample_env clean_run_without_pdf sample_convert) ''x'') =
     Inl (RuntimeError ''PDF file was not generated'')
   \<and> RunConvert \<notin> set (fst (compile_tikz_to_image (sample_env clean_run_without_pdf sample_convert) ''x''))"
proof -
  let ?w = "sample_env clean_run_without_pdf sample_convert"
  have a: "pdflatex_probe ?w = Found" and b: "convert_probe ?w = Found"
    by (simp_all add: sample_env_def)
  have l: "launch_error (run_pdflatex ?w (latex_content ''x'')) = None"
    and u: "decode_error (run_pdflatex ?w (latex_content ''x'')) = None"
    by (simp_all add: sample_env_def clean_run_without_pdf_def)
  have c: "returncode (run_pdflatex ?w (latex_content ''x'')) = 0"
    by (simp add: sample_env_def clean_run_without_pdf_def)
  have d: "\<not> pdf_exists (run_pdflatex ?w (latex_content ''x''))"
    by (simp add: sample_env_def clean_run_without_pdf_def)
  show ?thesis
    using missing_pdf_reported [OF a b l u c d] by simp
qed

text \<open>
  C10. When the compiler was run to its end, exits with a status other than zero and
  there is no log file, the reason of the compile failure is the captured standard error,
  or the fixed text \<^verbatim>\<open>LaTeX compilation failed - no log file generated\<close> when the standard
  error is empty; the log is not scanned.
\<close>

theorem no_log_file_reason:
  assumes "pdflatex_probe w = Found" and "convert_probe w = Found"
    and "launch_error (run_pdflatex w (latex_content tikz_code)) = None"
    and "decode_error (run_pdflatex w (latex_content tikz_code)) = None"
    and "returncode (run_pdflatex w (latex_content tikz_code)) \<noteq> 0"
    and "log_file (run_pdflatex w (latex_content tikz_code)) = None"
  shows "snd (compile_tikz_to_image w tikz_code) =
           Inl (RuntimeError (''LaTeX compilation failed:\<newline>\<newline>'' @
             (if stderr (run_pdflatex w (latex_content tikz_code)) = []
              then ''LaTeX compilation failed - no log file generated''
              else stderr (run_pdflatex w (latex_content tikz_code)))))"
  using assms
  by (simp add: compile_tikz_to_image_def Let_def error_details_def compilation_failed_def)

theorem no_log_file_reason_witness:
  "snd (compile_tikz_to_image (sample_env failed_run_without_log sample_convert) ''x'') =
     Inl (RuntimeError (''LaTeX compilation failed:\<newline>\<newline>pdflatex: cannot write on file''))
   \<and> snd (compile_tikz_to_image
       (sample_env (failed_run_without_log\<lparr>stderr := []\<rparr>) sample_convert) ''x'') =
     Inl (RuntimeError (''LaTeX compilation failed:\<newline>\<newline>LaTeX compilation failed - no log file generated''))"
proof -
  let ?w = "sample_env failed_run_without_log sample_convert"
  let ?v = "sample_env (failed_run_without_log\<lparr>stderr := []\<rparr>) sample_convert"
  have a: "pdflatex_probe ?w = Found" and b: "convert_probe ?w = Found"
    and a': "pdflatex_probe ?v = Found" and b': "convert_probe ?v = Found"
    by (simp_all add: sample_env_def)
  have l: "launch_error (run_pdflatex ?w (latex_content ''x'')) = None"
    and u: "decode_error (run_pdflatex ?w (latex_content ''x'')) = None"
    and l': "launch_error (run_pdflatex ?v (latex_content ''x'')) = None"
    and u': "decode_error (run_pdflatex ?v (latex_content ''x'')) = None"
    by (simp_all add: sample_env_def failed_run_without_log_def)
  have c: "returncode (run_pdflatex ?w (latex_content ''x'')) \<noteq> 0"
    and c': "returncode (run_pdflatex ?v (latex_content ''x'')) \<noteq> 0"
    by (simp_all add: sample_env_def failed_run_without_log_def)
  have d: "log_file (run_pdflatex ?w (latex_content ''x'')) = None"
    and d': "log_file (run_pdflatex ?v (latex_content ''x'')) = None"
    by (simp_all add: sample_env_def failed_run_without_log_def)
  show ?thesis
    using no_log_file_reason [OF a b l u c d] no_log_file_reason [OF a' b' l' u' c' d']
    by (simp add: sample_env_def failed_run_without_log_def)
qed

section \<open>The tool handler\<close>

text \<open>
  C8. A call of \<^verbatim>\<open>render_tikz\<close> with no arguments, with no \<^verbatim>\<open>tikz_code\<close>, or with a
  \<^verbatim>\<open>tikz_code\<close> that is \<^verbatim>\<open>None\<close>, the empty string or not a string, is answered with the
  validation error; nothing is done to the outside, so no workspace is created.
\<close>

theorem invalid_markup_rejected:
  assumes "arguments = None
           \<or> (\<exists>a. arguments = Some a \<and>
                (a ''tikz_code'' = None \<or> a ''tikz_code'' = Some PyNone
                 \<or> a ''tikz_code'' = Some (PyStr [])
                 \<or> (\<exists>v. a ''tikz_code'' = Some v \<and> \<not> isinstance_str v)))"
  shows "handle_call_tool w ''render_tikz'' arguments = ([], validation_error)
         \<and> CreateWorkspace \<notin> set (fst (handle_call_tool w ''render_tikz'' arguments))"
  using assms by (auto simp: handle_call_tool_def Let_def)

theorem invalid_markup_rejected_witness:
  "handle_call_tool (sample_env failed_run_with_pdf sample_convert) ''render_tikz'' None = ([], validation_error)
   \<and> handle_call_tool (sample_env failed_run_with_pdf sample_convert) ''render_tikz''
        (Some [''tikz_code'' \<mapsto> PyStr []]) = ([], validation_error)
   \<and> handle_call_tool (sample_env failed_run_with_pdf sample_convert) ''render_tikz''
        (Some [''tikz_code'' \<mapsto> PyInt 5]) = ([], validation_error)"
proof -
  let ?w = "sample_env failed_run_with_pdf sample_convert"
  have "handle_call_tool ?w ''render_tikz'' None = ([], validation_error)"
    using invalid_markup_rejected [of None ?w] by simp
  moreover have "handle_call_tool ?w ''render_tikz'' (Some [''tikz_code'' \<mapsto> PyStr []]) = ([], validation_error)"
    using invalid_markup_rejected [of "Some [''tikz_code'' \<mapsto> PyStr []]" ?w] by simp
  moreover have "handle_call_tool ?w ''render_tikz'' (Some [''tikz_code'' \<mapsto> PyInt 5]) = ([], validation_error)"
    using invalid_markup_rejected [of "Some [''tikz_code'' \<mapsto> PyInt 5]" ?w] by simp
  ultimately show ?thesis by blast
qed

end
